theory Spec2Isabelle
  imports Complex_Main "HOL-Library.Sublist" "HOL-Library.Char_ord" "HOL-Library.List_Lexorder"
begin

section \<open>Python strings\<close>

text \<open>
  A Python \<open>str\<close> is a sequence of code points. The model is \<^typ>\<open>string\<close>, whose
  characters are the code points below 256; \<open>str.lower\<close> and the white space of
  \<open>str.strip\<close> are those of Unicode on that range.
\<close>

definition is_space :: "char \<Rightarrow> bool" where
  "is_space c = ((of_char c :: nat) \<in> {9, 10, 11, 12, 13, 28, 29, 30, 31, 32, 133, 160})"

definition lower_char :: "char \<Rightarrow> char" where
  "lower_char c =
     (let n = (of_char c :: nat)
      in if (65 \<le> n \<and> n \<le> 90) \<or> (192 \<le> n \<and> n \<le> 222 \<and> n \<noteq> 215)
         then char_of (n + 32) else c)"

definition lower :: "string \<Rightarrow> string" where
  "lower s = map lower_char s"

definition lstrip :: "string \<Rightarrow> string" where
  "lstrip s = dropWhile is_space s"

definition rstrip :: "string \<Rightarrow> string" where
  "rstrip s = rev (dropWhile is_space (rev s))"

definition strip :: "string \<Rightarrow> string" where
  "strip s = rstrip (lstrip s)"

text \<open>\<open>s.split(sep)\<close> for a one-character separator: never empty, \<open>''.split(',') == ['']\<close>.\<close>

fun py_split :: "char \<Rightarrow> string \<Rightarrow> string list" where
  "py_split sep [] = [[]]"
| "py_split sep (c # cs) =
     (if c = sep then [] # py_split sep cs
      else (case py_split sep cs of
              [] \<Rightarrow> [[c]]
            | t # ts \<Rightarrow> (c # t) # ts))"

text \<open>\<open>sep.join(xs)\<close>.\<close>

fun join :: "string \<Rightarrow> string list \<Rightarrow> string" where
  "join sep [] = []"
| "join sep [x] = x"
| "join sep (x # y # ys) = x @ sep @ join sep (y # ys)"

text \<open>\<open>sub in s\<close> for strings: \<open>sub\<close> occurs in \<open>s\<close> as a contiguous substring.\<close>

fun contains :: "string \<Rightarrow> string \<Rightarrow> bool" where
  "contains sub [] = (sub = [])"
| "contains sub (c # cs) = (prefix sub (c # cs) \<or> contains sub cs)"

text \<open>
  \<open>s.replace(old, new)\<close>: the occurrences of \<open>old\<close> are found from the left and do
  not overlap; the replacement is not scanned again. For an empty \<open>old\<close> Python puts
  \<open>new\<close> before every character and at the end.
\<close>

function replace_ne :: "string \<Rightarrow> string \<Rightarrow> string \<Rightarrow> string" where
  "replace_ne old new [] = []"
| "replace_ne old new (c # cs) =
     (if old \<noteq> [] \<and> prefix old (c # cs)
      then new @ replace_ne old new (drop (length old) (c # cs))
      else c # replace_ne old new cs)"
  by pat_completeness auto
termination
  by (relation "measure (\<lambda>(old, new, s). length s)") (auto simp: neq_Nil_conv)

definition replace :: "string \<Rightarrow> string \<Rightarrow> string \<Rightarrow> string" where
  "replace old new s =
     (if old = [] then new @ concat (map (\<lambda>c. c # new) s) else replace_ne old new s)"

section \<open>The link normaliser\<close>

text \<open>\<open>enforce_absolute_urls\<close> (src/main.py, lines 104 to 125).\<close>

definition enforce_absolute_urls :: "string \<Rightarrow> string" where
  "enforce_absolute_urls contact_line =
     (if contact_line = [] then []
      else
        let s1 = replace ''http://'' ''https://'' contact_line;
            s2 = replace ''https://https://'' ''https://'' s1;
            s3 = (if contains ''linkedin.com'' s2 \<and> \<not> contains ''https://linkedin.com'' s2
                  then replace ''linkedin.com'' ''https://linkedin.com'' s2 else s2);
            s4 = (if contains ''github.com'' s3 \<and> \<not> contains ''https://github.com'' s3
                  then replace ''github.com'' ''https://github.com'' s3 else s3);
            s5 = (if contains ''netlify.app'' s4 \<and> \<not> contains ''https://'' s4
                  then replace ''ayaanahmad-portfolio.netlify.app''
                         ''https://ayaanahmad-portfolio.netlify.app'' s4
                  else s4)
        in replace ''https://https://'' ''https://'' s5)"

section \<open>JSON values and the Python operations on them\<close>

text \<open>
  What \<open>json.loads\<close> returns. A number stands for its value (an \<open>int\<close> or a
  \<open>float\<close>; the code only tests numbers for truth); an object lists each key once, in
  order.
\<close>

datatype json =
    JNull
  | JBool bool
  | JNum rat
  | JStr string
  | JArr "json list"
  | JObj "(string \<times> json) list"

datatype py_exn =
    AttributeError | TypeError | IndexError | KeyError | ValueError | JSONDecodeError
  | UnboundLocalError

text \<open>The truth value of \<open>if v:\<close>.\<close>

fun truthy :: "json \<Rightarrow> bool" where
  "truthy JNull = False"
| "truthy (JBool b) = b"
| "truthy (JNum x) = (x \<noteq> 0)"
| "truthy (JStr s) = (s \<noteq> [])"
| "truthy (JArr xs) = (xs \<noteq> [])"
| "truthy (JObj kvs) = (kvs \<noteq> [])"

text \<open>\<open>v.get(key, default)\<close>: only a dict has \<open>get\<close>.\<close>

fun dict_get :: "json \<Rightarrow> string \<Rightarrow> json \<Rightarrow> py_exn + json" where
  "dict_get (JObj kvs) key dflt = Inr (case map_of kvs key of None \<Rightarrow> dflt | Some x \<Rightarrow> x)"
| "dict_get v key dflt = Inl AttributeError"

text \<open>
  \<open>for x in v\<close>: the elements of a list, the one-character strings of a string, the
  keys of a dict; nothing else can be iterated.
\<close>

fun py_iter :: "json \<Rightarrow> py_exn + json list" where
  "py_iter (JArr xs) = Inr xs"
| "py_iter (JStr s) = Inr (map (\<lambda>c. JStr [c]) s)"
| "py_iter (JObj kvs) = Inr (map (\<lambda>kv. JStr (fst kv)) kvs)"
| "py_iter v = Inl TypeError"

text \<open>The resume object is a dict that the endpoint updates in place.\<close>

type_synonym resume = "string \<rightharpoonup> json"

section \<open>Keyword lists\<close>

text \<open>
  The stage-1 keywords (lines 1582 to 1587) and the master keyword list (line 1637).
  \<open>sorted(list(set(xs)))\<close> is the sorted list of the distinct elements; Python orders
  strings by code point, shorter prefix first.
\<close>

definition jd_all_skills_list_call1 ::
  "string list \<Rightarrow> string list \<Rightarrow> string list \<Rightarrow> string list \<Rightarrow> string list" where
  "jd_all_skills_list_call1 hard_skills tools domain_phrases soft_skills =
     hard_skills @ tools @ domain_phrases @ soft_skills"

definition jd_all_skills_set_call1 :: "string list \<Rightarrow> string list" where
  "jd_all_skills_set_call1 xs = sort (remdups (filter (\<lambda>s. s \<noteq> []) xs))"

definition master_keyword_list :: "string list \<Rightarrow> string list \<Rightarrow> string list" where
  "master_keyword_list xs missing_keywords =
     sort (remdups (jd_all_skills_set_call1 xs @ missing_keywords))"

section \<open>The brute-force keyword append\<close>

text \<open>Step 6 of the endpoint (lines 1812 to 1852). \<open>fold_key\<close> is \<open>skill.lower().strip()\<close>.\<close>

definition fold_key :: "string \<Rightarrow> string" where
  "fold_key skill = strip (lower skill)"

definition jd_skills_set :: "string list \<Rightarrow> string set" where
  "jd_skills_set master = set (map fold_key (filter (\<lambda>skill. skill \<noteq> []) master))"

definition current_skills_list :: "string \<Rightarrow> string list" where
  "current_skills_list current_skills_str = map strip (py_split CHR '','' current_skills_str)"

definition resume_skills_set :: "string \<Rightarrow> string set" where
  "resume_skills_set current_skills_str =
     set (map fold_key (filter (\<lambda>skill. skill \<noteq> []) (current_skills_list current_skills_str)))"

definition missing_skills :: "string list \<Rightarrow> string \<Rightarrow> string set" where
  "missing_skills master current_skills_str =
     jd_skills_set master - resume_skills_set current_skills_str"

text \<open>
  The source iterates over \<open>set(master_keyword_list)\<close>, in no fixed order; the order is
  lost again when the final list is made a set and sorted.
\<close>

definition original_case_missing :: "string list \<Rightarrow> string \<Rightarrow> string list" where
  "original_case_missing master current_skills_str =
     filter (\<lambda>skill. skill \<noteq> [] \<and> fold_key skill \<in> missing_skills master current_skills_str)
       (remdups master)"

definition final_skills_list_cleaned :: "string list \<Rightarrow> string \<Rightarrow> string list" where
  "final_skills_list_cleaned master current_skills_str =
     sort (remdups (filter (\<lambda>s. s \<noteq> [])
       (current_skills_list current_skills_str @ original_case_missing master current_skills_str)))"

text \<open>The body of the \<open>try\<close>: \<open>split\<close> exists on a string only.\<close>

definition keyword_append_body :: "string list \<Rightarrow> resume \<Rightarrow> py_exn + resume" where
  "keyword_append_body master obj =
     (case (case obj ''skills'' of None \<Rightarrow> JStr [] | Some v \<Rightarrow> v) of
        JStr current_skills_str \<Rightarrow>
          if missing_skills master current_skills_str \<noteq> {}
          then Inr (obj(''skills'' \<mapsto>
                 JStr (join '', '' (final_skills_list_cleaned master current_skills_str))))
          else Inr obj
      | _ \<Rightarrow> Inl AttributeError)"

text \<open>\<open>except Exception\<close>: the object stays as it is.\<close>

definition keyword_append :: "string list \<Rightarrow> resume \<Rightarrow> resume" where
  "keyword_append master obj =
     (case keyword_append_body master obj of Inl e \<Rightarrow> obj | Inr obj' \<Rightarrow> obj')"

section \<open>The skill partitioner\<close>

text \<open>
  Step 7 of the endpoint (lines 1854 to 1906).
  \<open>strip_all\<close> is \<open>[skill.strip() for skill in xs if skill.strip()]\<close>.
\<close>

fun strip_all :: "json list \<Rightarrow> py_exn + string list" where
  "strip_all [] = Inr []"
| "strip_all (JStr s # vs) =
     (case strip_all vs of
        Inl e \<Rightarrow> Inl e
      | Inr r \<Rightarrow> Inr (if strip s \<noteq> [] then strip s # r else r))"
| "strip_all (v # vs) = Inl AttributeError"

definition tier_skills :: "json \<Rightarrow> string \<Rightarrow> py_exn + string list" where
  "tier_skills jd_keywords tier =
     (case dict_get jd_keywords tier (JArr []) of
        Inl e \<Rightarrow> Inl e
      | Inr v \<Rightarrow> (case py_iter v of Inl e \<Rightarrow> Inl e | Inr xs \<Rightarrow> strip_all xs))"

definition all_skills_list :: "string \<Rightarrow> string list" where
  "all_skills_list current_skills_str =
     filter (\<lambda>t. t \<noteq> []) (map strip (py_split CHR '','' current_skills_str))"

definition set_partition :: "string list \<Rightarrow> string list \<Rightarrow> resume \<Rightarrow> resume" where
  "set_partition visible_skills invisible_skills obj =
     (obj(''skills_visible'' \<mapsto> JStr (if visible_skills \<noteq> [] then join '', '' visible_skills else []),
          ''skills_invisible'' \<mapsto>
            JStr (if invisible_skills \<noteq> [] then join '', '' invisible_skills else [])))
       (''skills'' := None)"

definition partition_body :: "json \<Rightarrow> resume \<Rightarrow> py_exn + resume" where
  "partition_body jd_analysis_report obj =
     (let current = (case obj ''skills'' of None \<Rightarrow> JStr [] | Some v \<Rightarrow> v)
      in if truthy current then
           (case current of
              JStr current_skills_str \<Rightarrow>
                (case dict_get jd_analysis_report ''keywords'' (JObj []) of
                   Inl e \<Rightarrow> Inl e
                 | Inr jd_keywords \<Rightarrow>
                     (case tier_skills jd_keywords ''hard_skills'' of
                        Inl e \<Rightarrow> Inl e
                      | Inr hard_skills \<Rightarrow>
                          (case tier_skills jd_keywords ''soft_skills'' of
                             Inl e \<Rightarrow> Inl e
                           | Inr soft_skills \<Rightarrow>
                               let visible_set = set (map lower (hard_skills @ soft_skills));
                                   skills = all_skills_list current_skills_str
                               in Inr (set_partition
                                    (filter (\<lambda>skill. lower skill \<in> visible_set) skills)
                                    (filter (\<lambda>skill. lower skill \<notin> visible_set) skills)
                                    obj))))
            | _ \<Rightarrow> Inl AttributeError)
         else Inr ((obj(''skills_visible'' \<mapsto> JStr [], ''skills_invisible'' \<mapsto> JStr []))
                     (''skills'' := None)))"

text \<open>
  The \<open>except Exception\<close> fallback: nothing has been written when an exception is
  raised, and the whole skills value becomes the visible part.
\<close>

definition partition_skills :: "json \<Rightarrow> resume \<Rightarrow> resume" where
  "partition_skills jd_analysis_report obj =
     (case partition_body jd_analysis_report obj of
        Inr obj' \<Rightarrow> obj'
      | Inl e \<Rightarrow>
          (case obj ''skills'' of
             None \<Rightarrow> obj
           | Some v \<Rightarrow>
               (obj(''skills_visible'' \<mapsto> v, ''skills_invisible'' \<mapsto> JStr []))
                 (''skills'' := None)))"

section \<open>The gateway\<close>

text \<open>
  \<open>call_gemini_api\<close> (lines 1403 to 1461). The service is a function from the number
  of the attempt to what \<open>client.post\<close> does: it returns a response with a status and a
  body, or raises \<open>httpx.RequestError\<close>. \<open>raise_for_status\<close> raises
  \<open>HTTPStatusError\<close> unless the status is 2xx, and \<open>response.json()\<close> is \<open>loads\<close> on
  the body. The run is the list of requests sent and delays slept, with the value returned
  or the exception that escapes. A delay is the exact value of
  \<open>base_delay * 2**attempt + attempt * 0.1\<close>; the rounding of the float is left out.
\<close>

datatype reply = Response nat string | Request_Error

datatype event = Post nat | Sleep rat

definition digit_char :: "nat \<Rightarrow> char" where
  "digit_char d = ''0123456789'' ! d"

function str_nat :: "nat \<Rightarrow> string" where
  "str_nat n = (if n < 10 then [digit_char n] else str_nat (n div 10) @ [digit_char (n mod 10)])"
  by pat_completeness auto
termination
  by (relation "measure id") auto

declare str_nat.simps [simp del]

text \<open>\<open>str(i)\<close> for an integer.\<close>

definition str_int :: "int \<Rightarrow> string" where
  "str_int i = (if i < 0 then CHR ''-'' # str_nat (nat (- i)) else str_nat (nat i))"

definition max_retries :: nat where
  "max_retries = 5"

definition base_delay :: nat where
  "base_delay = 1"

definition delay :: "nat \<Rightarrow> rat" where
  "delay attempt = of_nat (base_delay * 2 ^ attempt) + of_nat attempt * (1 / 10)"

definition retries_exhausted :: json where
  "retries_exhausted = JObj [(''error'', JStr ''API call failed after several retries.'')]"

fun attempts ::
  "(string \<Rightarrow> json option) \<Rightarrow> (nat \<Rightarrow> reply) \<Rightarrow> nat list \<Rightarrow> event list \<times> (py_exn + json)" where
  "attempts loads service [] = ([], Inr retries_exhausted)"
| "attempts loads service (attempt # rest) =
     (case service attempt of
        Response status body \<Rightarrow>
          if 200 \<le> status \<and> status < 300
          then ([Post attempt],
                case loads body of None \<Rightarrow> Inl JSONDecodeError | Some result \<Rightarrow> Inr result)
          else if 400 \<le> status \<and> status < 500
          then ([Post attempt],
                Inr (JObj [(''error'', JStr (''Client Error: '' @ str_nat status)),
                           (''details'', JStr body)]))
          else (case attempts loads service rest of
                  (run, r) \<Rightarrow> (Post attempt # Sleep (delay attempt) # run, r))
      | Request_Error \<Rightarrow>
          (case attempts loads service rest of
             (run, r) \<Rightarrow> (Post attempt # Sleep (delay attempt) # run, r)))"

text \<open>The attempts of a run: the requests sent, in order.\<close>

fun requests :: "event list \<Rightarrow> nat list" where
  "requests [] = []"
| "requests (Post attempt # run) = attempt # requests run"
| "requests (Sleep d # run) = requests run"

definition call_gemini_api ::
  "(string \<Rightarrow> json option) \<Rightarrow> (nat \<Rightarrow> reply) \<Rightarrow> event list \<times> (py_exn + json)" where
  "call_gemini_api loads service = attempts loads service [0..<max_retries]"

section \<open>The verification stage\<close>

text \<open>
  Call 1.5 of the endpoint (lines 1604 to 1633). \<open>Inl e\<close> is an exception that no handler
  of the endpoint catches: the request ends with a server error. \<open>json.loads\<close> is the
  parameter \<open>loads\<close>, \<open>None\<close> where it raises \<open>JSONDecodeError\<close>. Numbers are
  finite: the \<open>NaN\<close> and \<open>Infinity\<close> that \<open>json.loads\<close> also accepts are left out.
\<close>

definition and_then :: "py_exn + 'a \<Rightarrow> ('a \<Rightarrow> py_exn + 'b) \<Rightarrow> py_exn + 'b" where
  "and_then r f = (case r of Inl e \<Rightarrow> Inl e | Inr v \<Rightarrow> f v)"

text \<open>\<open>key in v\<close> for a string \<open>key\<close>.\<close>

fun py_in :: "string \<Rightarrow> json \<Rightarrow> py_exn + bool" where
  "py_in key (JObj kvs) = Inr (key \<in> set (map fst kvs))"
| "py_in key (JArr xs) = Inr (JStr key \<in> set xs)"
| "py_in key (JStr s) = Inr (contains key s)"
| "py_in key v = Inl TypeError"

text \<open>\<open>v[key]\<close> for a string \<open>key\<close>: only a dict is indexed by a string.\<close>

fun py_item :: "json \<Rightarrow> string \<Rightarrow> py_exn + json" where
  "py_item (JObj kvs) key = (case map_of kvs key of None \<Rightarrow> Inl KeyError | Some x \<Rightarrow> Inr x)"
| "py_item v key = Inl TypeError"

text \<open>\<open>v[0]\<close>: no key of a JSON object is the number 0.\<close>

fun index0 :: "json \<Rightarrow> py_exn + json" where
  "index0 (JArr []) = Inl IndexError"
| "index0 (JArr (x # xs)) = Inr x"
| "index0 (JStr []) = Inl IndexError"
| "index0 (JStr (c # cs)) = Inr (JStr [c])"
| "index0 (JObj kvs) = Inl KeyError"
| "index0 v = Inl TypeError"

text \<open>
  \<open>re.search(r'\{.*\}', s, re.DOTALL)\<close>: from the first opening brace to the last
  closing brace after it.
\<close>

definition json_match :: "string \<Rightarrow> string option" where
  "json_match s =
     (case dropWhile (\<lambda>c. c \<noteq> CHR ''{'') s of
        [] \<Rightarrow> None
      | b # rest \<Rightarrow>
          (case rev (dropWhile (\<lambda>c. c \<noteq> CHR ''}'') (rev rest)) of
             [] \<Rightarrow> None
           | inner \<Rightarrow> Some (b # inner)))"

definition llm_output_text :: "json \<Rightarrow> py_exn + json" where
  "llm_output_text api_response =
     and_then (dict_get api_response ''candidates'' (JArr [JObj []])) (\<lambda>candidates.
     and_then (index0 candidates) (\<lambda>candidate.
     and_then (dict_get candidate ''content'' (JObj [])) (\<lambda>content.
     and_then (dict_get content ''parts'' (JArr [JObj []])) (\<lambda>parts.
     and_then (index0 parts) (\<lambda>part.
     dict_get part ''text'' (JStr ''{}''))))))"

definition unfence :: "json \<Rightarrow> py_exn + string" where
  "unfence v =
     (case v of
        JStr t \<Rightarrow>
          let t1 = (if prefix ''```json'' t then drop 7 t else t);
              t2 = (if suffix ''```'' t1 then take (length t1 - 3) t1 else t1)
          in Inr (case json_match t2 of None \<Rightarrow> t2 | Some m \<Rightarrow> m)
      | _ \<Rightarrow> Inl AttributeError)"

text \<open>\<open>len(v)\<close>, which the stage takes of a non-empty answer to log it.\<close>

fun py_len :: "json \<Rightarrow> py_exn + nat" where
  "py_len (JStr s) = Inr (length s)"
| "py_len (JArr xs) = Inr (length xs)"
| "py_len (JObj kvs) = Inr (length kvs)"
| "py_len v = Inl TypeError"

text \<open>
  Lines 1613 to 1629, with the text of the answer bound to \<open>llm_output_text_call1_5\<close>.
\<close>

definition verification_data :: "(string \<Rightarrow> json option) \<Rightarrow> json \<Rightarrow> py_exn + json" where
  "verification_data loads text =
     and_then (unfence text) (\<lambda>t.
     and_then (case loads t of None \<Rightarrow> Inl JSONDecodeError | Some d \<Rightarrow> Inr d) (\<lambda>data.
     and_then (dict_get data ''missing_keywords'' (JArr [])) (\<lambda>missing_keywords.
       if truthy missing_keywords
       then and_then (py_len missing_keywords) (\<lambda>n. Inr missing_keywords)
       else Inr missing_keywords)))"

definition caught :: "py_exn \<Rightarrow> bool" where
  "caught e = (e \<in> {JSONDecodeError, IndexError, KeyError, ValueError})"

text \<open>
  The value of \<open>missing_keywords\<close> after the stage. The warning of line 1608 reads
  \<open>api_response_verification['error']\<close>. The handler of line 1631 logs
  \<open>llm_output_text_call1_5\<close>: when the exception it caught was raised by line 1611,
  that name is not bound yet and the handler itself raises \<open>UnboundLocalError\<close>.
\<close>

definition missing_keywords :: "(string \<Rightarrow> json option) \<Rightarrow> json \<Rightarrow> py_exn + json" where
  "missing_keywords loads api_response_verification =
     and_then (py_in ''error'' api_response_verification) (\<lambda>failed.
       if failed
       then and_then (py_item api_response_verification ''error'') (\<lambda>message. Inr (JArr []))
       else (case llm_output_text api_response_verification of
               Inl e \<Rightarrow> if caught e then Inl UnboundLocalError else Inl e
             | Inr text \<Rightarrow>
                 (case verification_data loads text of
                    Inl e \<Rightarrow> if caught e then Inr (JArr []) else Inl e
                  | Inr v \<Rightarrow> Inr v)))"

text \<open>
  Line 1637 on whatever the stage left in \<open>missing_keywords\<close>. A list can only be
  concatenated with a list; \<open>set\<close> needs hashable elements, so no list and no dict;
  it keeps the element seen first among equal ones, and \<open>True\<close> equals 1; \<open>sorted\<close>
  compares strings with strings and numbers with numbers, and raises \<open>TypeError\<close> on any
  other pair.
\<close>

fun hashable :: "json \<Rightarrow> bool" where
  "hashable (JArr xs) = False"
| "hashable (JObj kvs) = False"
| "hashable v = True"

fun num_value :: "json \<Rightarrow> rat option" where
  "num_value (JNum x) = Some x"
| "num_value (JBool b) = Some (if b then 1 else 0)"
| "num_value v = None"

definition py_eq :: "json \<Rightarrow> json \<Rightarrow> bool" where
  "py_eq a b = (case (num_value a, num_value b) of (Some x, Some y) \<Rightarrow> x = y | _ \<Rightarrow> a = b)"

fun add_all :: "json list \<Rightarrow> json list \<Rightarrow> json list" where
  "add_all seen [] = seen"
| "add_all seen (x # xs) = add_all (if \<exists>y \<in> set seen. py_eq y x then seen else seen @ [x]) xs"

definition py_set :: "json list \<Rightarrow> json list" where
  "py_set xs = add_all [] xs"

fun strings_of :: "json list \<Rightarrow> string list option" where
  "strings_of [] = Some []"
| "strings_of (JStr s # vs) = map_option ((#) s) (strings_of vs)"
| "strings_of (v # vs) = None"

text \<open>\<open>sorted\<close> on the elements of a set, which are pairwise different.\<close>

definition py_sorted :: "json list \<Rightarrow> py_exn + json list" where
  "py_sorted vs =
     (if length vs \<le> 1 then Inr vs
      else case strings_of vs of
             Some ss \<Rightarrow> Inr (map JStr (sort ss))
           | None \<Rightarrow>
               if \<forall>v \<in> set vs. num_value v \<noteq> None
               then Inr (sort_key (\<lambda>v. case num_value v of None \<Rightarrow> 0 | Some x \<Rightarrow> x) vs)
               else Inl TypeError)"

definition master_keyword_list_json :: "string list \<Rightarrow> json \<Rightarrow> py_exn + json list" where
  "master_keyword_list_json xs missing =
     (case missing of
        JArr vs \<Rightarrow>
          let combined = map JStr (jd_all_skills_set_call1 xs) @ vs
          in if \<forall>v \<in> set combined. hashable v then py_sorted (py_set combined)
             else Inl TypeError
      | _ \<Rightarrow> Inl TypeError)"

section \<open>The parameters of the transform prompt\<close>

text \<open>
  \<open>Form(default=2)\<close> for an integer field (lines 1473 and 1474): the value sent, or 2
  when the field is absent. How the framework reads an integer from the text of a field
  is not in the source; the model starts from the integer. Lines 1643 to 1651 build the
  prompt by four replacements, in this order; the template is a parameter.
\<close>

definition form_default :: "int option \<Rightarrow> int" where
  "form_default field = (case field of None \<Rightarrow> 2 | Some v \<Rightarrow> v)"

definition resume_slot :: string where
  "resume_slot = ''[Paste your resume here]''"

definition job_slot :: string where
  "job_slot = ''[Paste job description here]''"

definition weeks_slot :: string where
  "weeks_slot = ''[Optional: TIME_IN_WEEKS e.g., 2]''"

definition multiplier_slot :: string where
  "multiplier_slot = ''[Optional: AI_MULTIPLIER e.g., 3]''"

definition transform_prompt :: "string \<Rightarrow> string \<Rightarrow> string \<Rightarrow> int \<Rightarrow> int \<Rightarrow> string" where
  "transform_prompt template original_resume_text job_description time_in_weeks ai_multiplier =
     replace multiplier_slot (str_int ai_multiplier)
       (replace weeks_slot (str_int time_in_weeks)
         (replace job_slot job_description
           (replace resume_slot original_resume_text template)))"

section \<open>Facts about the string operations\<close>

lemma is_space_lower_char: "is_space (lower_char c) = is_space c"
proof -
  have "(of_char c :: nat) < 256" by simp
  then show ?thesis
    by (auto simp: is_space_def lower_char_def Let_def)
qed

lemma lower_lstrip: "lower (lstrip s) = lstrip (lower s)"
  by (induction s) (simp_all add: lower_def lstrip_def is_space_lower_char)

lemma lower_rstrip: "lower (rstrip s) = rstrip (lower s)"
  using lower_lstrip [of "rev s", symmetric]
  by (simp add: lower_def lstrip_def rstrip_def rev_map)

lemma lower_strip: "lower (strip s) = strip (lower s)"
  by (simp add: strip_def lower_rstrip lower_lstrip)

lemma lstrip_id: "s = [] \<or> \<not> is_space (hd s) \<Longrightarrow> lstrip s = s"
  by (cases s) (auto simp: lstrip_def)

lemma rstrip_id: "s = [] \<or> \<not> is_space (last s) \<Longrightarrow> rstrip s = s"
  by (cases s rule: rev_cases) (auto simp: rstrip_def)

lemma hd_lstrip: "lstrip s \<noteq> [] \<Longrightarrow> \<not> is_space (hd (lstrip s))"
  by (simp add: lstrip_def hd_dropWhile)

lemma last_rstrip: "rstrip s \<noteq> [] \<Longrightarrow> \<not> is_space (last (rstrip s))"
  by (simp add: rstrip_def last_rev hd_dropWhile)

lemma prefix_rstrip: "prefix (rstrip s) s"
proof -
  have "s = rev (dropWhile is_space (rev s)) @ rev (takeWhile is_space (rev s))"
    by (metis rev_append rev_rev_ident takeWhile_dropWhile_id)
  then show ?thesis
    unfolding rstrip_def by (metis prefixI)
qed

lemma set_strip: "set (strip s) \<subseteq> set s"
  by (auto simp: strip_def rstrip_def lstrip_def dest!: set_dropWhileD)

lemma strip_space_Cons: "is_space c \<Longrightarrow> strip (c # s) = strip s"
  by (simp add: strip_def lstrip_def)

lemma lstrip_strip: "lstrip (strip s) = strip s"
proof (cases "strip s = []")
  case True
  then show ?thesis by (simp add: lstrip_def)
next
  case False
  have p: "prefix (strip s) (lstrip s)"
    unfolding strip_def by (rule prefix_rstrip)
  with False have ne: "lstrip s \<noteq> []" by auto
  from p False have "hd (strip s) = hd (lstrip s)"
    by (auto simp: prefix_def)
  with hd_lstrip [OF ne] show ?thesis
    by (simp add: lstrip_id)
qed

lemma rstrip_strip: "rstrip (strip s) = strip s"
  unfolding strip_def by (rule rstrip_id) (use last_rstrip in blast)

lemma strip_strip: "strip (strip s) = strip s"
proof -
  have "strip (strip s) = rstrip (lstrip (strip s))" by (simp add: strip_def)
  then show ?thesis by (simp add: lstrip_strip rstrip_strip)
qed

lemma fold_key_strip: "fold_key (strip s) = fold_key s"
  by (simp add: fold_key_def lower_strip strip_strip)

lemma is_space_blank: "is_space CHR '' ''"
  by (simp add: is_space_def)

lemma py_split_not_Nil: "py_split sep s \<noteq> []"
  by (induction s) (auto split: list.splits)

lemma py_split_no_sep: "t \<in> set (py_split sep s) \<Longrightarrow> sep \<notin> set t"
  by (induction s arbitrary: t) (auto split: list.splits if_splits)

lemma py_split_free: "sep \<notin> set s \<Longrightarrow> py_split sep s = [s]"
  by (induction s) auto

lemma py_split_append: "py_split sep (a @ sep # b) = py_split sep a @ py_split sep b"
  by (induction a) (auto split: list.splits simp: py_split_not_Nil)

lemma py_split_other:
  "c \<noteq> sep \<Longrightarrow> py_split sep (c # s) = (c # hd (py_split sep s)) # tl (py_split sep s)"
  using py_split_not_Nil [of sep s] by (auto split: list.splits)

section \<open>The master keyword list\<close>

text \<open>
  C3, as the code has it. The master keyword list is the sorted list of the distinct
  strings among the non-empty stage-1 keywords and the verified-missing keywords:
  strings are compared exactly, so it has no string twice, and every spelling of a
  keyword that occurs is kept.
\<close>

theorem master_keyword_list_exact_union:
  "sorted (master_keyword_list (jd_all_skills_list_call1 h t d s) missing)
   \<and> distinct (master_keyword_list (jd_all_skills_list_call1 h t d s) missing)
   \<and> set (master_keyword_list (jd_all_skills_list_call1 h t d s) missing)
       = {k \<in> set h \<union> set t \<union> set d \<union> set s. k \<noteq> []} \<union> set missing"
  by (auto simp: master_keyword_list_def jd_all_skills_set_call1_def
      jd_all_skills_list_call1_def)

text \<open>
  C3, as the specification states it, fails: with the stage-1 keyword \<open>Python\<close> and the
  verified-missing keyword \<open>python\<close> the master list holds both, two elements that are
  equal up to case and white space.
\<close>

theorem master_keyword_list_keeps_both_casings:
  "master_keyword_list (jd_all_skills_list_call1 [''Python''] [] [] []) [''python'']
     = [''Python'', ''python'']
   \<and> \<not> distinct (map fold_key
         (master_keyword_list (jd_all_skills_list_call1 [''Python''] [] [] []) [''python'']))"
  by (simp add: master_keyword_list_def jd_all_skills_set_call1_def
      jd_all_skills_list_call1_def fold_key_def strip_def lstrip_def rstrip_def lower_def
      lower_char_def is_space_def char_of_def bit_Suc_0_iff)

section \<open>The link normaliser on concrete contact lines\<close>

lemma enforce_absolute_urls_scenario:
  "enforce_absolute_urls ''linkedin.com/in/x, http://github.com/y''
     = ''https://linkedin.com/in/x, https://github.com/y''"
  by (simp add: enforce_absolute_urls_def replace_def)

text \<open>
  C5. The link normaliser is not idempotent. Each of its two clean-up passes halves a run
  of scheme prefixes, so a run of five leaves two after the first application, and the
  second application removes one more.
\<close>

theorem enforce_absolute_urls_twice_differs:
  "enforce_absolute_urls ''https://https://https://https://https://x'' = ''https://https://x''
   \<and> enforce_absolute_urls (enforce_absolute_urls ''https://https://https://https://https://x'')
       = ''https://x''"
  by (simp add: enforce_absolute_urls_def replace_def)

text \<open>
  C6. The portfolio host gets its scheme only when the line has no \<open>https://\<close> at all:
  once the GitHub link has been given its scheme, the bare portfolio host is left bare.
\<close>

theorem enforce_absolute_urls_leaves_portfolio_bare:
  "enforce_absolute_urls ''github.com/y, ayaanahmad-portfolio.netlify.app''
     = ''https://github.com/y, ayaanahmad-portfolio.netlify.app''"
  by (simp add: enforce_absolute_urls_def replace_def)

lemma enforce_absolute_urls_www:
  "enforce_absolute_urls ''https://www.linkedin.com/in/x''
     = ''https://www.https://linkedin.com/in/x''"
  by (simp add: enforce_absolute_urls_def replace_def)

section \<open>The keyword append covers the master list\<close>

lemma fold_key_blank: "fold_key (CHR '' '' # s) = fold_key s"
  by (simp add: fold_key_def lower_def lower_char_def strip_space_Cons is_space_blank)

lemma token_after_blank:
  assumes "t \<in> set (py_split CHR '','' s)"
  shows "\<exists>u \<in> set (py_split CHR '','' (CHR '' '' # s)). fold_key u = fold_key t"
proof -
  have ne: "py_split CHR '','' s \<noteq> []" by (rule py_split_not_Nil)
  have sp: "py_split CHR '','' (CHR '' '' # s)
      = (CHR '' '' # hd (py_split CHR '','' s)) # tl (py_split CHR '','' s)"
    by (rule py_split_other) simp
  from assms ne have "t = hd (py_split CHR '','' s) \<or> t \<in> set (tl (py_split CHR '','' s))"
    by (cases "py_split CHR '','' s") auto
  then show ?thesis
  proof
    assume "t = hd (py_split CHR '','' s)"
    then show ?thesis unfolding sp by (simp add: fold_key_blank)
  next
    assume "t \<in> set (tl (py_split CHR '','' s))"
    then show ?thesis unfolding sp by auto
  qed
qed

lemma join_Cons_Cons: "join '', '' (x # y # ys) = x @ CHR '','' # CHR '' '' # join '', '' (y # ys)"
  by simp

lemma token_of_join:
  "l \<in> set L \<Longrightarrow> CHR '','' \<notin> set l \<Longrightarrow>
   \<exists>t \<in> set (py_split CHR '','' (join '', '' L)). fold_key t = fold_key l"
proof (induction "'', ''" L rule: join.induct)
  case 1
  then show ?case by simp
next
  case (2 x)
  then show ?case by (simp add: py_split_free)
next
  case (3 x y ys)
  show ?case
  proof (cases "l = x")
    case True
    with 3 show ?thesis
      by (simp only: join_Cons_Cons py_split_append) (simp add: py_split_free)
  next
    case False
    with 3 obtain t where t: "t \<in> set (py_split CHR '','' (join '', '' (y # ys)))"
      "fold_key t = fold_key l" by auto
    from token_after_blank [OF t(1)] t(2) show ?thesis
      by (simp only: join_Cons_Cons py_split_append) auto
  qed
qed

lemma in_resume_skills_set:
  "x \<in> resume_skills_set S \<longleftrightarrow>
     (\<exists>t \<in> set (py_split CHR '','' S). strip t \<noteq> [] \<and> fold_key t = x)"
proof
  assume "x \<in> resume_skills_set S"
  then show "\<exists>t \<in> set (py_split CHR '','' S). strip t \<noteq> [] \<and> fold_key t = x"
    by (auto simp: resume_skills_set_def current_skills_list_def fold_key_strip)
next
  assume "\<exists>t \<in> set (py_split CHR '','' S). strip t \<noteq> [] \<and> fold_key t = x"
  then obtain t where t: "t \<in> set (py_split CHR '','' S)" "strip t \<noteq> []" "fold_key t = x"
    by blast
  then have "fold_key (strip t) \<in> resume_skills_set S"
    by (auto simp: resume_skills_set_def current_skills_list_def)
  with t(3) show "x \<in> resume_skills_set S"
    by (simp add: fold_key_strip)
qed

lemma in_jd_skills_set: "k \<in> set K \<Longrightarrow> k \<noteq> [] \<Longrightarrow> fold_key k \<in> jd_skills_set K"
  by (auto simp: jd_skills_set_def)

lemma set_final_skills_list_cleaned:
  "set (final_skills_list_cleaned K S)
     = {t \<in> set (current_skills_list S). t \<noteq> []}
       \<union> {k \<in> set K. k \<noteq> [] \<and> fold_key k \<notin> resume_skills_set S}"
  by (auto simp: final_skills_list_cleaned_def original_case_missing_def missing_skills_def
      in_jd_skills_set)

lemma current_skill_no_comma: "t \<in> set (current_skills_list S) \<Longrightarrow> CHR '','' \<notin> set t"
  using py_split_no_sep set_strip by (fastforce simp: current_skills_list_def)

lemma keyword_append_skills:
  assumes "obj ''skills'' = Some (JStr S)"
  shows "keyword_append_body K obj = Inr (keyword_append K obj)"
    and "missing_skills K S = {} \<Longrightarrow> keyword_append K obj = obj"
    and "missing_skills K S \<noteq> {} \<Longrightarrow>
           keyword_append K obj = obj(''skills'' \<mapsto> JStr (join '', '' (final_skills_list_cleaned K S)))"
  using assms by (simp_all add: keyword_append_def keyword_append_body_def)

text \<open>
  C1, as the code has it. Let the resume object hold a skills string. After the keyword
  append, every element of the master keyword list that is not empty and has no comma
  is, folded to lower case and trimmed, one of the folded and trimmed comma-separated
  tokens of the skills string. The body of the \<open>try\<close> raises nothing on a skills
  string, and whatever it could raise is caught: \<open>keyword_append\<close> always returns a
  resume object.
\<close>

theorem keyword_append_covers:
  assumes skills: "obj ''skills'' = Some (JStr S)"
    and k: "k \<in> set K" "k \<noteq> []" "CHR '','' \<notin> set k"
  shows "\<exists>r. keyword_append K obj ''skills'' = Some (JStr r)
           \<and> fold_key k \<in> fold_key ` set (py_split CHR '','' r)
           \<and> keyword_append_body K obj = Inr (keyword_append K obj)"
proof (cases "missing_skills K S = {}")
  case True
  with k have "fold_key k \<in> resume_skills_set S"
    using in_jd_skills_set [of k K] by (auto simp: missing_skills_def)
  then have "fold_key k \<in> fold_key ` set (py_split CHR '','' S)"
    by (metis imageI in_resume_skills_set)
  with True skills show ?thesis
    by (simp add: keyword_append_skills)
next
  case False
  let ?L = "final_skills_list_cleaned K S"
  have "\<exists>l \<in> set ?L. CHR '','' \<notin> set l \<and> fold_key l = fold_key k"
  proof (cases "fold_key k \<in> resume_skills_set S")
    case True
    then obtain t where t: "t \<in> set (py_split CHR '','' S)" "strip t \<noteq> []"
      "fold_key t = fold_key k"
      by (auto simp: in_resume_skills_set)
    then have "strip t \<in> set (current_skills_list S)"
      by (simp add: current_skills_list_def)
    with t show ?thesis
      using current_skill_no_comma [of "strip t" S]
      by (intro bexI [of _ "strip t"]) (auto simp: set_final_skills_list_cleaned fold_key_strip)
  next
    case False
    with k show ?thesis
      by (intro bexI [of _ k]) (auto simp: set_final_skills_list_cleaned)
  qed
  then obtain l where l: "l \<in> set ?L" "CHR '','' \<notin> set l" "fold_key l = fold_key k"
    by blast
  from token_of_join [OF l(1) l(2)] obtain u
    where "u \<in> set (py_split CHR '','' (join '', '' ?L))" "fold_key u = fold_key l"
    by blast
  with l(3) have "fold_key k \<in> fold_key ` set (py_split CHR '','' (join '', '' ?L))"
    by (metis imageI)
  with False skills show ?thesis
    by (simp add: keyword_append_skills)
qed

text \<open>
  The hypotheses of C1 hold for the skills \<open>Python, SQL\<close> and the keyword \<open>Tableau\<close>.
\<close>

theorem keyword_append_covers_witness:
  "[''skills'' \<mapsto> JStr ''Python, SQL''] ''skills'' = Some (JStr ''Python, SQL'')
   \<and> ''Tableau'' \<in> set [''python'', ''Tableau'', ''SQL''] \<and> ''Tableau'' \<noteq> []
   \<and> CHR '','' \<notin> set ''Tableau''
   \<and> (\<exists>r. keyword_append [''python'', ''Tableau'', ''SQL''] [''skills'' \<mapsto> JStr ''Python, SQL'']
              ''skills'' = Some (JStr r)
          \<and> fold_key ''Tableau'' \<in> fold_key ` set (py_split CHR '','' r))"
  using keyword_append_covers [of "[''skills'' \<mapsto> JStr ''Python, SQL'']" "''Python, SQL''"
      "''Tableau''" "[''python'', ''Tableau'', ''SQL'']"]
  by auto

lemmas fold_eval = fold_key_def strip_def lstrip_def rstrip_def lower_def
  lower_char_def is_space_def char_of_def bit_Suc_0_iff

lemmas append_eval = keyword_append_def keyword_append_body_def missing_skills_def
  jd_skills_set_def resume_skills_set_def current_skills_list_def
  final_skills_list_cleaned_def original_case_missing_def

text \<open>
  C1, as the specification states it, fails for two kinds of keyword. A keyword with a
  comma is appended as it is and falls into two tokens; an empty keyword is skipped.
\<close>

theorem keyword_append_uncovered:
  "keyword_append [''CI,CD''] [''skills'' \<mapsto> JStr []] ''skills'' = Some (JStr ''CI,CD'')
   \<and> fold_key ''CI,CD'' \<notin> fold_key ` set (py_split CHR '','' ''CI,CD'')
   \<and> keyword_append [[]] [''skills'' \<mapsto> JStr ''SQL''] ''skills'' = Some (JStr ''SQL'')
   \<and> fold_key [] \<notin> fold_key ` set (py_split CHR '','' ''SQL'')"
  by (simp add: append_eval fold_eval)

text \<open>
  C2, as the code has it. When no master keyword is missing the resume object is left as
  it is. When one is missing, the skills string becomes the \<open>', '\<close>-join of a list that is
  sorted, has no string twice (strings compared exactly), and holds the non-empty trimmed
  tokens of the old string together with the non-empty master keywords, spelled as in
  the master list, whose folded form was not among the old tokens. For the skills
  \<open>Python, SQL\<close> and the master list \<open>python, Tableau, SQL\<close> the result is
  \<open>Python, SQL, Tableau\<close>.
\<close>

theorem keyword_append_result:
  assumes "obj ''skills'' = Some (JStr S)"
  shows "(missing_skills K S = {} \<longrightarrow> keyword_append K obj = obj)
     \<and> (missing_skills K S \<noteq> {} \<longrightarrow>
          (\<exists>L. keyword_append K obj = obj(''skills'' \<mapsto> JStr (join '', '' L))
             \<and> sorted L \<and> distinct L
             \<and> set L = {t \<in> set (current_skills_list S). t \<noteq> []}
                       \<union> {k \<in> set K. k \<noteq> [] \<and> fold_key k \<notin> resume_skills_set S}))
     \<and> keyword_append [''python'', ''Tableau'', ''SQL''] [''skills'' \<mapsto> JStr ''Python, SQL'']
           ''skills'' = Some (JStr ''Python, SQL, Tableau'')"
proof -
  have "sorted (final_skills_list_cleaned K S)" "distinct (final_skills_list_cleaned K S)"
    by (simp_all add: final_skills_list_cleaned_def)
  then have "missing_skills K S \<noteq> {} \<longrightarrow>
          (\<exists>L. keyword_append K obj = obj(''skills'' \<mapsto> JStr (join '', '' L))
             \<and> sorted L \<and> distinct L
             \<and> set L = {t \<in> set (current_skills_list S). t \<noteq> []}
                       \<union> {k \<in> set K. k \<noteq> [] \<and> fold_key k \<notin> resume_skills_set S})"
    using assms set_final_skills_list_cleaned [of K S]
    by (intro impI exI [of _ "final_skills_list_cleaned K S"]) (simp add: keyword_append_skills)
  moreover have "keyword_append [''python'', ''Tableau'', ''SQL'']
      [''skills'' \<mapsto> JStr ''Python, SQL''] ''skills'' = Some (JStr ''Python, SQL, Tableau'')"
    by (simp add: append_eval fold_eval)
  ultimately show ?thesis
    using assms by (simp add: keyword_append_skills)
qed

text \<open>
  The hypotheses of C2 hold for the skills \<open>SQL\<close> and the master list \<open>Tableau\<close>.
\<close>

theorem keyword_append_result_witness:
  "[''skills'' \<mapsto> JStr ''SQL''] ''skills'' = Some (JStr ''SQL'')
   \<and> missing_skills [''Tableau''] ''SQL'' \<noteq> {}
   \<and> (\<exists>L. keyword_append [''Tableau''] [''skills'' \<mapsto> JStr ''SQL'']
              = [''skills'' \<mapsto> JStr ''SQL''](''skills'' \<mapsto> JStr (join '', '' L))
          \<and> sorted L \<and> distinct L
          \<and> set L = {t \<in> set (current_skills_list ''SQL''). t \<noteq> []}
                    \<union> {k \<in> set [''Tableau'']. k \<noteq> [] \<and> fold_key k \<notin> resume_skills_set ''SQL''})"
proof -
  have m: "missing_skills [''Tableau''] ''SQL'' \<noteq> {}"
    by (simp add: append_eval fold_eval)
  with keyword_append_result [of "[''skills'' \<mapsto> JStr ''SQL'']" "''SQL''" "[''Tableau'']"]
  show ?thesis by simp
qed

text \<open>
  C2, as the specification states it, fails: nothing is missing from
  \<open>SQL, Python, SQL\<close> for the master list \<open>SQL\<close>, and the string stays unsorted
  with \<open>SQL\<close> twice.
\<close>

theorem keyword_append_leaves_unsorted:
  "keyword_append [''SQL''] [''skills'' \<mapsto> JStr ''SQL, Python, SQL''] ''skills''
     = Some (JStr ''SQL, Python, SQL'')
   \<and> \<not> sorted (map strip (py_split CHR '','' ''SQL, Python, SQL''))
   \<and> \<not> distinct (map strip (py_split CHR '','' ''SQL, Python, SQL''))"
  by (simp add: append_eval fold_eval)

section \<open>The partition is complete\<close>

lemma join_Cons: "join sep (x # xs) = (if xs = [] then x else x @ sep @ join sep xs)"
  by (cases xs) simp_all

lemma py_split_join:
  "\<forall>y \<in> set (x # xs). CHR '','' \<notin> set y \<Longrightarrow>
   py_split CHR '','' (join '', '' (x # xs)) = x # map ((#) CHR '' '') xs"
proof (induction xs arbitrary: x)
  case Nil
  then show ?case by (simp add: py_split_free)
next
  case (Cons y ys)
  have "py_split CHR '','' (join '', '' (x # y # ys))
      = py_split CHR '','' x @ py_split CHR '','' (CHR '' '' # join '', '' (y # ys))"
    by (simp only: join_Cons_Cons py_split_append)
  also have "py_split CHR '','' x = [x]"
    using Cons.prems by (simp add: py_split_free)
  also have "py_split CHR '','' (CHR '' '' # join '', '' (y # ys))
      = (CHR '' '' # hd (py_split CHR '','' (join '', '' (y # ys))))
          # tl (py_split CHR '','' (join '', '' (y # ys)))"
    by (rule py_split_other) simp
  also have "py_split CHR '','' (join '', '' (y # ys)) = y # map ((#) CHR '' '') ys"
    using Cons.prems by (intro Cons.IH) simp
  finally show ?case by simp
qed

lemma all_skills_list_Nil: "all_skills_list [] = []"
  by (simp add: all_skills_list_def strip_def lstrip_def rstrip_def)

lemma all_skills_list_join:
  assumes "\<forall>x \<in> set xs. x \<noteq> [] \<and> strip x = x \<and> CHR '','' \<notin> set x"
  shows "all_skills_list (join '', '' xs) = xs"
proof (cases xs)
  case Nil
  then show ?thesis by (simp add: all_skills_list_Nil)
next
  case (Cons y ys)
  have sp: "py_split CHR '','' (join '', '' (y # ys)) = y # map ((#) CHR '' '') ys"
    using assms Cons by (intro py_split_join) simp
  have st: "map strip (y # map ((#) CHR '' '') ys) = y # ys"
    using assms Cons by (simp add: strip_space_Cons is_space_blank map_idI)
  have fl: "filter (\<lambda>t. t \<noteq> []) (y # ys) = y # ys"
    using assms Cons by (simp add: filter_id_conv)
  show ?thesis
    by (simp only: all_skills_list_def Cons sp st fl)
qed

lemma all_skills_list_elem:
  assumes "t \<in> set (all_skills_list S)"
  shows "t \<noteq> [] \<and> strip t = t \<and> CHR '','' \<notin> set t"
proof -
  from assms obtain u where u: "u \<in> set (py_split CHR '','' S)" "t = strip u" "t \<noteq> []"
    by (auto simp: all_skills_list_def)
  then have "CHR '','' \<notin> set t"
    using py_split_no_sep [OF u(1)] set_strip [of u] by auto
  with u show ?thesis by (simp add: strip_strip)
qed

lemma all_skills_list_filter:
  "all_skills_list (join '', '' (filter P (all_skills_list S))) = filter P (all_skills_list S)"
  by (rule all_skills_list_join) (use all_skills_list_elem in auto)

lemma partition_skills_string:
  assumes "obj ''skills'' = Some (JStr S)"
  obtains (fallback) "S \<noteq> []"
      "partition_skills jd obj
         = (obj(''skills_visible'' \<mapsto> JStr S, ''skills_invisible'' \<mapsto> JStr []))(''skills'' := None)"
    | (split) vs where
      "partition_skills jd obj
         = (obj(''skills_visible'' \<mapsto>
                  JStr (join '', '' (filter (\<lambda>skill. lower skill \<in> vs) (all_skills_list S))),
                ''skills_invisible'' \<mapsto>
                  JStr (join '', '' (filter (\<lambda>skill. lower skill \<notin> vs) (all_skills_list S)))))
             (''skills'' := None)"
proof (cases "S = []")
  case True
  with assms have "partition_skills jd obj
      = (obj(''skills_visible'' \<mapsto>
               JStr (join '', '' (filter (\<lambda>skill. lower skill \<in> {}) (all_skills_list S))),
             ''skills_invisible'' \<mapsto>
               JStr (join '', '' (filter (\<lambda>skill. lower skill \<notin> {}) (all_skills_list S)))))
          (''skills'' := None)"
    by (simp add: partition_skills_def partition_body_def Let_def all_skills_list_Nil)
  then show ?thesis by (rule split)
next
  case False
  show ?thesis
  proof (cases "partition_body jd obj")
    case (Inl e)
    with assms have "partition_skills jd obj
        = (obj(''skills_visible'' \<mapsto> JStr S, ''skills_invisible'' \<mapsto> JStr []))(''skills'' := None)"
      by (simp add: partition_skills_def)
    with False show ?thesis by (rule fallback)
  next
    case (Inr obj')
    from Inr assms False obtain k where k: "dict_get jd ''keywords'' (JObj []) = Inr k"
      by (cases "dict_get jd ''keywords'' (JObj [])") (simp_all add: partition_body_def)
    from Inr assms False k obtain hs where hs: "tier_skills k ''hard_skills'' = Inr hs"
      by (cases "tier_skills k ''hard_skills''") (simp_all add: partition_body_def)
    from Inr assms False k hs obtain ss where ss: "tier_skills k ''soft_skills'' = Inr ss"
      by (cases "tier_skills k ''soft_skills''") (simp_all add: partition_body_def)
    define vs where "vs = set (map lower (hs @ ss))"
    have "\<And>xs. (if xs \<noteq> [] then join '', '' xs else []) = join '', '' xs"
      by simp
    with assms False k hs ss have "partition_skills jd obj
        = (obj(''skills_visible'' \<mapsto>
                 JStr (join '', '' (filter (\<lambda>skill. lower skill \<in> vs) (all_skills_list S))),
               ''skills_invisible'' \<mapsto>
                 JStr (join '', '' (filter (\<lambda>skill. lower skill \<notin> vs) (all_skills_list S)))))
            (''skills'' := None)"
      by (simp add: partition_skills_def partition_body_def set_partition_def Let_def vs_def)
    then show ?thesis by (rule split)
  qed
qed

lemma partition_sets:
  "lower ` set (filter (\<lambda>skill. lower skill \<in> vs) xs)
     \<union> lower ` set (filter (\<lambda>skill. lower skill \<notin> vs) xs) = lower ` set xs"
  "lower ` set (filter (\<lambda>skill. lower skill \<in> vs) xs)
     \<inter> lower ` set (filter (\<lambda>skill. lower skill \<notin> vs) xs) = {}"
  by auto

lemma partition_skills_tokens:
  assumes "obj ''skills'' = Some (JStr S)"
  shows "\<exists>v w. partition_skills jd obj ''skills_visible'' = Some (JStr v)
           \<and> partition_skills jd obj ''skills_invisible'' = Some (JStr w)
           \<and> lower ` set (all_skills_list v) \<union> lower ` set (all_skills_list w)
               = lower ` set (all_skills_list S)
           \<and> lower ` set (all_skills_list v) \<inter> lower ` set (all_skills_list w) = {}
           \<and> (S = [] \<longrightarrow> v = [] \<and> w = [])"
  using assms
proof (rule partition_skills_string [where jd = jd and obj = obj and S = S])
  assume "S \<noteq> []" and r: "partition_skills jd obj
      = (obj(''skills_visible'' \<mapsto> JStr S, ''skills_invisible'' \<mapsto> JStr []))(''skills'' := None)"
  then show ?thesis
    by (intro exI [of _ S] exI [of _ "[]"]) (simp add: all_skills_list_Nil)
next
  fix vs
  let ?v = "join '', '' (filter (\<lambda>skill. lower skill \<in> vs) (all_skills_list S))"
  let ?w = "join '', '' (filter (\<lambda>skill. lower skill \<notin> vs) (all_skills_list S))"
  assume r: "partition_skills jd obj
      = (obj(''skills_visible'' \<mapsto> JStr ?v, ''skills_invisible'' \<mapsto> JStr ?w))(''skills'' := None)"
  have a: "all_skills_list ?v = filter (\<lambda>skill. lower skill \<in> vs) (all_skills_list S)"
    and b: "all_skills_list ?w = filter (\<lambda>skill. lower skill \<notin> vs) (all_skills_list S)"
    by (rule all_skills_list_filter)+
  have u: "lower ` set (all_skills_list ?v) \<union> lower ` set (all_skills_list ?w)
      = lower ` set (all_skills_list S)"
    unfolding a b by (rule partition_sets(1))
  have i: "lower ` set (all_skills_list ?v) \<inter> lower ` set (all_skills_list ?w) = {}"
    unfolding a b by (rule partition_sets(2))
  have e: "S = [] \<longrightarrow> ?v = [] \<and> ?w = []"
    by (simp add: all_skills_list_Nil)
  have vis: "partition_skills jd obj ''skills_visible'' = Some (JStr ?v)"
    and inv: "partition_skills jd obj ''skills_invisible'' = Some (JStr ?w)"
    by (simp_all add: r)
  from vis inv u i e show ?thesis
    by (intro exI [of _ ?v] exI [of _ ?w] conjI)
qed

lemma set_all_skills_list:
  "set (all_skills_list s) = {t \<in> strip ` set (py_split CHR '','' s). t \<noteq> []}"
  by (auto simp: all_skills_list_def)

text \<open>
  C4. Let the resume object hold a skills string, and let the JD analysis report be any
  JSON value. After the partitioning, \<open>skills_visible\<close> and \<open>skills_invisible\<close> are
  strings. Read each string as a set of skills compared without case: split it at the
  commas, trim the tokens, drop the empty ones, take lower case. Then the two outputs
  together hold exactly the skills of the input, and they share no skill. When the input
  string is empty both outputs are the empty string. This covers the fallback too, where
  the whole string becomes the visible part.
\<close>

theorem partition_skills_complete:
  assumes "obj ''skills'' = Some (JStr S)"
  shows "\<exists>v w. partition_skills jd obj ''skills_visible'' = Some (JStr v)
           \<and> partition_skills jd obj ''skills_invisible'' = Some (JStr w)
           \<and> lower ` {t \<in> strip ` set (py_split CHR '','' v). t \<noteq> []}
               \<union> lower ` {t \<in> strip ` set (py_split CHR '','' w). t \<noteq> []}
               = lower ` {t \<in> strip ` set (py_split CHR '','' S). t \<noteq> []}
           \<and> lower ` {t \<in> strip ` set (py_split CHR '','' v). t \<noteq> []}
               \<inter> lower ` {t \<in> strip ` set (py_split CHR '','' w). t \<noteq> []} = {}
           \<and> (S = [] \<longrightarrow> v = [] \<and> w = [])"
proof -
  from assms have "\<exists>v w. partition_skills jd obj ''skills_visible'' = Some (JStr v)
           \<and> partition_skills jd obj ''skills_invisible'' = Some (JStr w)
           \<and> lower ` set (all_skills_list v) \<union> lower ` set (all_skills_list w)
               = lower ` set (all_skills_list S)
           \<and> lower ` set (all_skills_list v) \<inter> lower ` set (all_skills_list w) = {}
           \<and> (S = [] \<longrightarrow> v = [] \<and> w = [])"
    by (rule partition_skills_tokens [where obj = obj and S = S])
  then show ?thesis
    unfolding set_all_skills_list .
qed

text \<open>
  The hypothesis of C4 holds for the skills \<open>Python, SQL\<close>; with the hard skill
  \<open>python\<close> in the report, \<open>Python\<close> is the visible part and \<open>SQL\<close> the invisible one.
\<close>

theorem partition_skills_complete_witness:
  "partition_skills (JObj [(''keywords'', JObj [(''hard_skills'', JArr [JStr ''python''])])])
     [''skills'' \<mapsto> JStr ''Python, SQL''] ''skills_visible'' = Some (JStr ''Python'')
   \<and> partition_skills (JObj [(''keywords'', JObj [(''hard_skills'', JArr [JStr ''python''])])])
       [''skills'' \<mapsto> JStr ''Python, SQL''] ''skills_invisible'' = Some (JStr ''SQL'')
   \<and> (\<exists>v w. partition_skills
               (JObj [(''keywords'', JObj [(''hard_skills'', JArr [JStr ''python''])])])
               [''skills'' \<mapsto> JStr ''Python, SQL''] ''skills_visible'' = Some (JStr v)
           \<and> partition_skills
               (JObj [(''keywords'', JObj [(''hard_skills'', JArr [JStr ''python''])])])
               [''skills'' \<mapsto> JStr ''Python, SQL''] ''skills_invisible'' = Some (JStr w)
           \<and> lower ` {t \<in> strip ` set (py_split CHR '','' v). t \<noteq> []}
               \<union> lower ` {t \<in> strip ` set (py_split CHR '','' w). t \<noteq> []}
               = lower ` {t \<in> strip ` set (py_split CHR '','' ''Python, SQL''). t \<noteq> []}
           \<and> lower ` {t \<in> strip ` set (py_split CHR '','' v). t \<noteq> []}
               \<inter> lower ` {t \<in> strip ` set (py_split CHR '','' w). t \<noteq> []} = {}
           \<and> (''Python, SQL'' = [] \<longrightarrow> v = [] \<and> w = []))"
proof (intro conjI)
  show "partition_skills (JObj [(''keywords'', JObj [(''hard_skills'', JArr [JStr ''python''])])])
     [''skills'' \<mapsto> JStr ''Python, SQL''] ''skills_visible'' = Some (JStr ''Python'')"
    by (simp add: partition_skills_def partition_body_def tier_skills_def all_skills_list_def
        set_partition_def Let_def fold_eval)
  show "partition_skills (JObj [(''keywords'', JObj [(''hard_skills'', JArr [JStr ''python''])])])
       [''skills'' \<mapsto> JStr ''Python, SQL''] ''skills_invisible'' = Some (JStr ''SQL'')"
    by (simp add: partition_skills_def partition_body_def tier_skills_def all_skills_list_def
        set_partition_def Let_def fold_eval)
  have "[''skills'' \<mapsto> JStr ''Python, SQL''] ''skills'' = Some (JStr ''Python, SQL'')"
    by simp
  then show "\<exists>v w. partition_skills
               (JObj [(''keywords'', JObj [(''hard_skills'', JArr [JStr ''python''])])])
               [''skills'' \<mapsto> JStr ''Python, SQL''] ''skills_visible'' = Some (JStr v)
           \<and> partition_skills
               (JObj [(''keywords'', JObj [(''hard_skills'', JArr [JStr ''python''])])])
               [''skills'' \<mapsto> JStr ''Python, SQL''] ''skills_invisible'' = Some (JStr w)
           \<and> lower ` {t \<in> strip ` set (py_split CHR '','' v). t \<noteq> []}
               \<union> lower ` {t \<in> strip ` set (py_split CHR '','' w). t \<noteq> []}
               = lower ` {t \<in> strip ` set (py_split CHR '','' ''Python, SQL''). t \<noteq> []}
           \<and> lower ` {t \<in> strip ` set (py_split CHR '','' v). t \<noteq> []}
               \<inter> lower ` {t \<in> strip ` set (py_split CHR '','' w). t \<noteq> []} = {}
           \<and> (''Python, SQL'' = [] \<longrightarrow> v = [] \<and> w = [])"
    by (rule partition_skills_complete
        [where obj = "[''skills'' \<mapsto> JStr ''Python, SQL'']" and S = "''Python, SQL''"])
qed

text \<open>
  C10. When the \<open>skills\<close> value of the resume object is a string, or the key is absent,
  then on every path of the partitioning (an empty string, the split, the exception
  fallback) the object that comes out has the two keys \<open>skills_visible\<close> and
  \<open>skills_invisible\<close>, both with a string, and no key \<open>skills\<close>. That object is the
  argument of both \<open>create_docx\<close> and \<open>create_pdf\<close> (lines 1912 and 1915), which
  only read it.
\<close>

theorem partition_skills_fields:
  assumes "obj ''skills'' = None \<or> (\<exists>S. obj ''skills'' = Some (JStr S))"
  shows "partition_skills jd obj ''skills'' = None
     \<and> (\<exists>v. partition_skills jd obj ''skills_visible'' = Some (JStr v))
     \<and> (\<exists>w. partition_skills jd obj ''skills_invisible'' = Some (JStr w))"
  using assms
proof
  assume "obj ''skills'' = None"
  then have "partition_skills jd obj
      = (obj(''skills_visible'' \<mapsto> JStr [], ''skills_invisible'' \<mapsto> JStr []))(''skills'' := None)"
    by (simp add: partition_skills_def partition_body_def Let_def)
  then show ?thesis by simp
next
  assume "\<exists>S. obj ''skills'' = Some (JStr S)"
  then obtain S where "obj ''skills'' = Some (JStr S)" ..
  then show ?thesis
    by (rule partition_skills_string [where jd = jd and obj = obj and S = S]) simp_all
qed

text \<open>
  The hypothesis of C10 holds for the skills \<open>Python, SQL\<close>; the report here has no
  keyword tiers, so the fallback runs.
\<close>

theorem partition_skills_fields_witness:
  "([''skills'' \<mapsto> JStr ''Python, SQL''] ''skills'' = None
      \<or> (\<exists>S. [''skills'' \<mapsto> JStr ''Python, SQL''] ''skills'' = Some (JStr S)))
   \<and> partition_skills (JObj [(''keywords'', JNull)]) [''skills'' \<mapsto> JStr ''Python, SQL''] ''skills''
       = None
   \<and> (\<exists>v. partition_skills (JObj [(''keywords'', JNull)]) [''skills'' \<mapsto> JStr ''Python, SQL'']
            ''skills_visible'' = Some (JStr v))
   \<and> (\<exists>w. partition_skills (JObj [(''keywords'', JNull)]) [''skills'' \<mapsto> JStr ''Python, SQL'']
            ''skills_invisible'' = Some (JStr w))"
proof (rule conjI)
  show h: "[''skills'' \<mapsto> JStr ''Python, SQL''] ''skills'' = None
      \<or> (\<exists>S. [''skills'' \<mapsto> JStr ''Python, SQL''] ''skills'' = Some (JStr S))"
    by simp
  then show "partition_skills (JObj [(''keywords'', JNull)]) [''skills'' \<mapsto> JStr ''Python, SQL''] ''skills''
       = None
   \<and> (\<exists>v. partition_skills (JObj [(''keywords'', JNull)]) [''skills'' \<mapsto> JStr ''Python, SQL'']
            ''skills_visible'' = Some (JStr v))
   \<and> (\<exists>w. partition_skills (JObj [(''keywords'', JNull)]) [''skills'' \<mapsto> JStr ''Python, SQL'']
            ''skills_invisible'' = Some (JStr w))"
    by (rule partition_skills_fields [where obj = "[''skills'' \<mapsto> JStr ''Python, SQL'']"])
qed

section \<open>The retry ceiling of the gateway\<close>

lemma attempts_all_retry:
  assumes "\<forall>attempt \<in> set as. \<exists>status body.
             service attempt = Response status body \<and> 500 \<le> status \<and> status < 600"
  shows "attempts loads service as
           = (concat (map (\<lambda>attempt. [Post attempt, Sleep (delay attempt)]) as),
              Inr retries_exhausted)"
  using assms
proof (induction as)
  case Nil
  then show ?case by simp
next
  case (Cons a as)
  then obtain status body where
    r: "service a = Response status body" "500 \<le> status" "status < 600"
    by auto
  from Cons have "attempts loads service as
      = (concat (map (\<lambda>attempt. [Post attempt, Sleep (delay attempt)]) as),
         Inr retries_exhausted)"
    by simp
  with r show ?case by simp
qed

lemma upt_5: "[0..<5] = [0, 1, 2, 3, 4 :: nat]"
  by (simp add: upt_rec)

lemma delay_formula: "delay attempt = 2 ^ attempt + of_nat attempt / 10"
  by (simp add: delay_def base_delay_def)

lemma delay_values:
  "delay 0 = 1" "delay 1 = 21 / 10" "delay 2 = 42 / 10" "delay 3 = 83 / 10"
  "delay 4 = 164 / 10"
  by (simp_all add: delay_formula)

text \<open>
  C7. When each of the five attempts gets a response with a 5xx status, the gateway sends
  exactly five requests, numbered 0 to 4, sleeps after the attempt numbered \<open>n\<close> for
  \<open>2 ^ n + n / 10\<close> seconds (a base of one second that doubles, and a tenth of a
  second more per attempt), and then returns the dict with the one key \<open>error\<close> and the
  message that the call failed after several retries: it returns, it does not raise.
\<close>

theorem call_gemini_api_retry_ceiling:
  assumes "\<forall>attempt < 5. \<exists>status body.
             service attempt = Response status body \<and> 500 \<le> status \<and> status < 600"
  shows "call_gemini_api loads service
           = ([Post 0, Sleep 1, Post 1, Sleep (21 / 10), Post 2, Sleep (42 / 10),
               Post 3, Sleep (83 / 10), Post 4, Sleep (164 / 10)],
              Inr retries_exhausted)
       \<and> requests (fst (call_gemini_api loads service)) = [0, 1, 2, 3, 4]
       \<and> (\<forall>attempt. delay attempt = 2 ^ attempt + of_nat attempt / 10)"
proof -
  from assms have "\<forall>attempt \<in> set [0..<5]. \<exists>status body.
      service attempt = Response status body \<and> 500 \<le> status \<and> status < 600"
    by simp
  then have "attempts loads service [0..<5]
      = (concat (map (\<lambda>attempt. [Post attempt, Sleep (delay attempt)]) [0..<5]),
         Inr retries_exhausted)"
    by (rule attempts_all_retry)
  then have run: "call_gemini_api loads service
           = ([Post 0, Sleep 1, Post 1, Sleep (21 / 10), Post 2, Sleep (42 / 10),
               Post 3, Sleep (83 / 10), Post 4, Sleep (164 / 10)],
              Inr retries_exhausted)"
    by (simp only: call_gemini_api_def max_retries_def upt_5 list.map concat.simps
        append.simps delay_values)
  then have "requests (fst (call_gemini_api loads service)) = [0, 1, 2, 3, 4]"
    by simp
  with run delay_formula show ?thesis by simp
qed

text \<open>
  The hypothesis of C7 holds for a service that always answers 503.
\<close>

theorem call_gemini_api_retry_ceiling_witness:
  "call_gemini_api (\<lambda>body. None) (\<lambda>attempt. Response 503 ''Service Unavailable'')
       = ([Post 0, Sleep 1, Post 1, Sleep (21 / 10), Post 2, Sleep (42 / 10),
           Post 3, Sleep (83 / 10), Post 4, Sleep (164 / 10)],
          Inr retries_exhausted)
   \<and> requests (fst (call_gemini_api (\<lambda>body. None) (\<lambda>attempt. Response 503 ''Service Unavailable'')))
       = [0, 1, 2, 3, 4]"
  using call_gemini_api_retry_ceiling
    [of "\<lambda>attempt. Response 503 ''Service Unavailable''" "\<lambda>body. None"]
  by simp

section \<open>The verification stage on a reply that is not an object\<close>

lemmas verification_eval = missing_keywords_def verification_data_def llm_output_text_def
  unfence_def json_match_def and_then_def caught_def Let_def suffix_to_prefix

text \<open>
  C8. The model answers call 1.5 with the text \<open>[]\<close>, a JSON array where an object was
  asked for. \<open>json.loads\<close> returns a list, \<open>verification_data.get\<close> raises
  \<open>AttributeError\<close>, and the handler of the stage catches only \<open>JSONDecodeError\<close>,
  \<open>IndexError\<close>, \<open>KeyError\<close> and \<open>ValueError\<close>: the exception leaves the endpoint and
  no resume is produced. An API error and a text that is not JSON do give the empty list
  of missing keywords, and then the master list is the stage-1 list.
\<close>

theorem missing_keywords_array_reply:
  "missing_keywords (\<lambda>t. if t = ''[]'' then Some (JArr []) else None)
     (JObj [(''candidates'', JArr [JObj [(''content'',
        JObj [(''parts'', JArr [JObj [(''text'', JStr ''[]'')]])])]])])
     = Inl AttributeError"
  by (simp add: verification_eval)

lemma missing_keywords_api_error:
  assumes "map_of kvs ''error'' = Some message"
  shows "missing_keywords loads (JObj kvs) = Inr (JArr [])"
proof -
  from assms have "''error'' \<in> fst ` set kvs"
    by (metis domI dom_map_of_conv_image_fst)
  with assms show ?thesis
    by (simp add: missing_keywords_def and_then_def)
qed

lemma missing_keywords_not_json:
  assumes "py_in ''error'' api_response = Inr False"
    and "llm_output_text api_response = Inr text" and "unfence text = Inr t" and "loads t = None"
  shows "missing_keywords loads api_response = Inr (JArr [])"
  using assms by (simp add: missing_keywords_def verification_data_def and_then_def caught_def)

text \<open>
  Other answers that end the request: an envelope without a candidate, where the handler
  fails on the unbound name; a list that holds the string \<open>error\<close>; a
  \<open>missing_keywords\<close> that is not a list, at line 1637.
\<close>

lemma missing_keywords_no_candidate:
  "missing_keywords loads (JObj [(''candidates'', JArr [])]) = Inl UnboundLocalError"
  by (simp add: verification_eval)

lemma missing_keywords_error_in_list:
  "missing_keywords loads (JArr [JStr ''error'']) = Inl TypeError"
  by (simp add: verification_eval)

lemma master_keyword_list_no_missing:
  "master_keyword_list xs [] = jd_all_skills_set_call1 xs"
  by (simp add: master_keyword_list_def jd_all_skills_set_call1_def distinct_remdups_id
      sorted_sort_id)

lemma master_keyword_list_json_not_list:
  "master_keyword_list_json xs JNull = Inl TypeError"
  "master_keyword_list_json xs (JStr s) = Inl TypeError"
  by (simp_all add: master_keyword_list_json_def)

lemma strings_of_map: "strings_of (map JStr ss) = Some ss"
  by (induction ss) simp_all

lemma py_eq_JStr: "py_eq (JStr a) (JStr b) = (a = b)"
  by (simp add: py_eq_def)

lemma add_all_strings:
  "\<exists>ts. add_all (map JStr seen) (map JStr ss) = map JStr ts
        \<and> set ts = set seen \<union> set ss \<and> (distinct seen \<longrightarrow> distinct ts)"
proof (induction ss arbitrary: seen)
  case Nil
  show ?case by (intro exI [of _ seen]) simp
next
  case (Cons x ss)
  show ?case
  proof (cases "x \<in> set seen")
    case True
    then have "add_all (map JStr seen) (map JStr (x # ss)) = add_all (map JStr seen) (map JStr ss)"
      by (auto simp: py_eq_JStr)
    with Cons [of seen] True show ?thesis by auto
  next
    case False
    then have "add_all (map JStr seen) (map JStr (x # ss))
        = add_all (map JStr (seen @ [x])) (map JStr ss)"
      by (auto simp: py_eq_JStr)
    with Cons [of "seen @ [x]"] False show ?thesis by auto
  qed
qed

lemma py_sorted_strings:
  assumes "distinct ts"
  shows "py_sorted (map JStr ts) = Inr (map JStr (sort ts))"
proof (cases "length ts \<le> 1")
  case True
  then have "sort ts = ts"
    by (cases ts) (simp_all add: le_Suc_eq)
  with True show ?thesis by (simp add: py_sorted_def)
next
  case False
  then show ?thesis by (simp add: py_sorted_def strings_of_map)
qed

lemma master_keyword_list_json_strings:
  "master_keyword_list_json xs (JArr (map JStr ms)) = Inr (map JStr (master_keyword_list xs ms))"
proof -
  let ?ss = "jd_all_skills_set_call1 xs @ ms"
  from add_all_strings [of "[]" ?ss] obtain ts where
    ts: "py_set (map JStr ?ss) = map JStr ts" "set ts = set ?ss" "distinct ts"
    by (auto simp: py_set_def)
  have "sort ts = sort (remdups ?ss)"
    using ts by (intro sorted_distinct_set_unique) simp_all
  with ts py_sorted_strings [of ts] have "py_sorted (py_set (map JStr ?ss))
      = Inr (map JStr (master_keyword_list xs ms))"
    by (simp add: master_keyword_list_def)
  moreover have "\<forall>v \<in> set (map JStr ?ss). hashable v" by auto
  ultimately show ?thesis
    by (simp add: master_keyword_list_json_def Let_def del: set_map set_append)
qed

lemma master_keyword_list_json_no_missing:
  "master_keyword_list_json xs (JArr []) = Inr (map JStr (jd_all_skills_set_call1 xs))"
  using master_keyword_list_json_strings [of xs "[]"]
  by (simp add: master_keyword_list_no_missing)

lemma master_keyword_list_json_examples:
  "master_keyword_list_json [] (JArr [JNum 3, JBool True, JNum 1]) = Inr [JBool True, JNum 3]"
  "master_keyword_list_json [''SQL''] (JArr [JNum 3]) = Inl TypeError"
  "master_keyword_list_json [''SQL''] (JArr [JArr []]) = Inl TypeError"
  "master_keyword_list_json [] (JArr [JNull]) = Inr [JNull]"
  by (simp_all add: master_keyword_list_json_def py_sorted_def py_set_def py_eq_def
      jd_all_skills_set_call1_def)

section \<open>The values put into the transform prompt\<close>

lemma not_prefix_longer:
  "\<not> prefix old x \<Longrightarrow> length old \<le> length x \<Longrightarrow> \<not> prefix old (x @ y)"
  by (auto simp: prefix_append)

lemma replace_ne_at_front:
  assumes "old \<noteq> []"
  shows "replace_ne old new (old @ b) = new @ replace_ne old new b"
proof -
  from assms obtain c cs where old: "old = c # cs" by (cases old) auto
  have "replace_ne old new (c # (cs @ b)) = new @ replace_ne old new (drop (length old) (c # (cs @ b)))"
    using assms by (simp add: old)
  then show ?thesis by (simp add: old)
qed

lemma replace_ne_first:
  assumes "old \<noteq> []" and "\<not> contains old (a @ butlast old)"
  shows "replace_ne old new (a @ old @ b) = a @ new @ replace_ne old new b"
  using assms(2)
proof (induction a)
  case Nil
  show ?case using assms(1) by (simp add: replace_ne_at_front)
next
  case (Cons c a)
  from Cons.prems have np: "\<not> prefix old (c # a @ butlast old)"
    and nc: "\<not> contains old (a @ butlast old)"
    by simp_all
  have len: "length old \<le> length (c # a @ butlast old)"
    by simp
  have "old @ b = butlast old @ [last old] @ b"
    using assms(1) by (metis append_assoc append_butlast_last_id)
  then have eq: "c # a @ old @ b = (c # a @ butlast old) @ ([last old] @ b)"
    by simp
  have "\<not> prefix old (c # a @ old @ b)"
    by (subst eq) (rule not_prefix_longer [OF np len])
  with Cons.IH [OF nc] show ?case by simp
qed

lemma replace_ne_absent: "\<not> contains old a \<Longrightarrow> replace_ne old new a = a"
  by (induction a) auto

lemma replace_once:
  assumes "old \<noteq> []" "\<not> contains old (a @ butlast old)" "\<not> contains old b"
  shows "replace old new (a @ old @ b) = a @ new @ b"
  using assms by (simp add: replace_def replace_ne_first replace_ne_absent)

lemma replace_chain:
  assumes ne: "p1 \<noteq> []" "p2 \<noteq> []" "p3 \<noteq> []" "p4 \<noteq> []"
    and h1: "\<not> contains p1 (t0 @ butlast p1)"
      "\<not> contains p1 (t1 @ p2 @ t2 @ p3 @ t3 @ p4 @ t4)"
    and h2: "\<not> contains p2 (t0 @ n1 @ t1 @ butlast p2)"
      "\<not> contains p2 (t2 @ p3 @ t3 @ p4 @ t4)"
    and h3: "\<not> contains p3 (t0 @ n1 @ t1 @ n2 @ t2 @ butlast p3)"
      "\<not> contains p3 (t3 @ p4 @ t4)"
    and h4: "\<not> contains p4 (t0 @ n1 @ t1 @ n2 @ t2 @ n3 @ t3 @ butlast p4)"
      "\<not> contains p4 t4"
  shows "replace p4 n4 (replace p3 n3 (replace p2 n2 (replace p1 n1
           (t0 @ p1 @ t1 @ p2 @ t2 @ p3 @ t3 @ p4 @ t4))))
         = t0 @ n1 @ t1 @ n2 @ t2 @ n3 @ t3 @ n4 @ t4"
proof -
  have s1: "replace p1 n1 (t0 @ p1 @ (t1 @ p2 @ t2 @ p3 @ t3 @ p4 @ t4))
      = t0 @ n1 @ (t1 @ p2 @ t2 @ p3 @ t3 @ p4 @ t4)"
    using ne(1) h1 by (rule replace_once)
  have s2: "replace p2 n2 ((t0 @ n1 @ t1) @ p2 @ (t2 @ p3 @ t3 @ p4 @ t4))
      = (t0 @ n1 @ t1) @ n2 @ (t2 @ p3 @ t3 @ p4 @ t4)"
    using ne(2) h2 by (intro replace_once) simp_all
  have s3: "replace p3 n3 ((t0 @ n1 @ t1 @ n2 @ t2) @ p3 @ (t3 @ p4 @ t4))
      = (t0 @ n1 @ t1 @ n2 @ t2) @ n3 @ (t3 @ p4 @ t4)"
    using ne(3) h3 by (intro replace_once) simp_all
  have s4: "replace p4 n4 ((t0 @ n1 @ t1 @ n2 @ t2 @ n3 @ t3) @ p4 @ t4)
      = (t0 @ n1 @ t1 @ n2 @ t2 @ n3 @ t3) @ n4 @ t4"
    using ne(4) h4 by (intro replace_once) simp_all
  from s1 s2 s3 s4 show ?thesis by simp
qed

text \<open>
  C9, as the code has it. Let the template hold each of the four slots once, in the
  order resume, job description, weeks, multiplier, as the template of the source does
  (lines 412 to 420), and let no slot be completed by a text that was put in before it
  is replaced. Then the prompt is the template with the resume text, the job
  description, the weeks and the multiplier in the four places. The weeks and the
  multiplier are 2 when their form field is absent; an integer that was sent is written
  in decimal as it is, whatever its value.
\<close>

theorem transform_prompt_values:
  assumes "\<not> contains resume_slot (t0 @ butlast resume_slot)"
    and "\<not> contains resume_slot (t1 @ job_slot @ t2 @ weeks_slot @ t3 @ multiplier_slot @ t4)"
    and "\<not> contains job_slot (t0 @ original_resume_text @ t1 @ butlast job_slot)"
    and "\<not> contains job_slot (t2 @ weeks_slot @ t3 @ multiplier_slot @ t4)"
    and "\<not> contains weeks_slot
           (t0 @ original_resume_text @ t1 @ job_description @ t2 @ butlast weeks_slot)"
    and "\<not> contains weeks_slot (t3 @ multiplier_slot @ t4)"
    and "\<not> contains multiplier_slot
           (t0 @ original_resume_text @ t1 @ job_description @ t2
              @ str_int (form_default time_in_weeks) @ t3 @ butlast multiplier_slot)"
    and "\<not> contains multiplier_slot t4"
  shows "transform_prompt
           (t0 @ resume_slot @ t1 @ job_slot @ t2 @ weeks_slot @ t3 @ multiplier_slot @ t4)
           original_resume_text job_description
           (form_default time_in_weeks) (form_default ai_multiplier)
         = t0 @ original_resume_text @ t1 @ job_description @ t2
             @ str_int (case time_in_weeks of None \<Rightarrow> 2 | Some v \<Rightarrow> v) @ t3
             @ str_int (case ai_multiplier of None \<Rightarrow> 2 | Some v \<Rightarrow> v) @ t4"
proof -
  have ne: "resume_slot \<noteq> []" "job_slot \<noteq> []" "weeks_slot \<noteq> []" "multiplier_slot \<noteq> []"
    by (simp_all add: resume_slot_def job_slot_def weeks_slot_def multiplier_slot_def)
  have "transform_prompt
           (t0 @ resume_slot @ t1 @ job_slot @ t2 @ weeks_slot @ t3 @ multiplier_slot @ t4)
           original_resume_text job_description
           (form_default time_in_weeks) (form_default ai_multiplier)
        = t0 @ original_resume_text @ t1 @ job_description @ t2
             @ str_int (form_default time_in_weeks) @ t3
             @ str_int (form_default ai_multiplier) @ t4"
    unfolding transform_prompt_def using ne assms by (rule replace_chain)
  then show ?thesis by (simp only: form_default_def)
qed

lemmas prompt_eval = resume_slot_def job_slot_def weeks_slot_def multiplier_slot_def
  form_default_def str_int_def str_nat.simps digit_char_def

text \<open>
  The hypotheses of C9 hold for a short template, with the weeks absent and the
  multiplier 3.
\<close>

theorem transform_prompt_values_witness:
  "transform_prompt
     (''Resume: '' @ resume_slot @ '' Job: '' @ job_slot @ '' Weeks: '' @ weeks_slot
        @ '' Multiplier: '' @ multiplier_slot @ ''.'')
     ''Jane Doe'' ''Data analyst'' (form_default None) (form_default (Some 3))
   = ''Resume: Jane Doe Job: Data analyst Weeks: 2 Multiplier: 3.''"
  using transform_prompt_values [of "''Resume: ''" "'' Job: ''" "'' Weeks: ''"
      "'' Multiplier: ''" "''.''" "''Jane Doe''" "''Data analyst''" None "Some 3"]
  by (simp add: prompt_eval)

text \<open>
  C9, as the specification states it, fails. A multiplier of 7 is outside the choices
  2, 3 and 5, and a time of -1 weeks is no valid time; the prompt receives 7 and -1: the
  multiplier is not brought into the choices, and neither value is replaced by 2.
\<close>

theorem transform_prompt_multiplier_not_clamped:
  "form_default (Some 7) \<notin> {2, 3, 5} \<and> form_default (Some (- 1)) \<noteq> 2
   \<and> transform_prompt
       (''Resume: '' @ resume_slot @ '' Job: '' @ job_slot @ '' Weeks: '' @ weeks_slot
          @ '' Multiplier: '' @ multiplier_slot @ ''.'')
       ''Jane Doe'' ''Data analyst'' (form_default (Some (- 1))) (form_default (Some 7))
     = ''Resume: Jane Doe Job: Data analyst Weeks: -1 Multiplier: 7.''"
  by (simp add: transform_prompt_def replace_def prompt_eval)

end
